theory Spec2Isabelle
  imports Complex_Main
begin

section \<open>Python strings as lists of code points\<close>

text \<open>
  A Python \<open>str\<close> is a sequence of Unicode code points. The story text is modelled as a list
  of code points (natural numbers); times are Python floats, modelled as exact reals.
\<close>

type_synonym codepoint = nat
type_synonym pystr = "codepoint list"

text \<open>
  The whitespace test shared by \<open>str.split()\<close>, \<open>str.isspace()\<close> and the whitespace
  class of regular expressions on \<open>str\<close> patterns: U+0009..U+000D, U+001C..U+0020, U+0085, U+00A0, U+1680,
  U+2000..U+200A, U+2028, U+2029, U+202F, U+205F, U+3000.
\<close>

definition isspace :: "codepoint \<Rightarrow> bool" where
  "isspace c \<longleftrightarrow>
     (9 \<le> c \<and> c \<le> 13) \<or> (28 \<le> c \<and> c \<le> 32) \<or> c = 133 \<or> c = 160 \<or> c = 5760 \<or>
     (8192 \<le> c \<and> c \<le> 8202) \<or> c = 8232 \<or> c = 8233 \<or> c = 8239 \<or> c = 8287 \<or> c = 12288"

text \<open>The character class \<open>[.!?]\<close> of the sentence regex: U+002E, U+0021, U+003F.\<close>

definition is_terminal :: "codepoint \<Rightarrow> bool" where
  "is_terminal c \<longleftrightarrow> c = 46 \<or> c = 33 \<or> c = 63"

text \<open>
  \<open>s.split()\<close>: scan left to right, \<open>w\<close> is the word being collected; a whitespace
  character ends the current word, runs of whitespace yield no empty words.
\<close>

fun split_from :: "pystr \<Rightarrow> pystr \<Rightarrow> pystr list" where
  "split_from w [] = (if w = [] then [] else [w])"
| "split_from w (c # cs) =
     (if isspace c then (if w = [] then split_from [] cs else w # split_from [] cs)
      else split_from (w @ [c]) cs)"

definition py_split :: "pystr \<Rightarrow> pystr list" where
  "py_split s = split_from [] s"

text \<open>
  \<open>re.split\<close> of line 119, whose pattern is a lookbehind for one of \<open>.!?\<close> followed by one
  or more whitespace characters: \<open>cur\<close> is the piece collected since the last match.
  A match starts at a whitespace character preceded by one of \<open>.!?\<close> and takes the whole
  whitespace run (the repetition is greedy); the piece before it is emitted and scanning resumes
  after the run. The final piece is always emitted, also when it is empty.
\<close>

function re_split_from :: "pystr \<Rightarrow> pystr \<Rightarrow> pystr list" where
  "re_split_from cur [] = [cur]"
| "re_split_from cur (c # cs) =
     (if isspace c \<and> cur \<noteq> [] \<and> is_terminal (last cur)
      then cur # re_split_from [] (dropWhile isspace cs)
      else re_split_from (cur @ [c]) cs)"
  by pat_completeness auto
termination
  by (relation "measure (\<lambda>(cur, s). length s)")
     (auto simp: length_dropWhile_le le_imp_less_Suc)

definition re_split_sentences :: "pystr \<Rightarrow> pystr list" where
  "re_split_sentences s = re_split_from [] s"

text \<open>\<open>" ".join(ws)\<close>\<close>

fun join_space :: "pystr list \<Rightarrow> pystr" where
  "join_space [] = []"
| "join_space [w] = w"
| "join_space (w # ws) = w @ [32] @ join_space ws"

section \<open>Caption segments (\<open>_create_subtitle_file\<close>, lines 117 to 132)\<close>

text \<open>\<open>range(0, n, 8)\<close>: the multiples of 8 below \<open>n\<close>.\<close>

definition range8 :: "nat \<Rightarrow> nat list" where
  "range8 n = map (\<lambda>k. 8 * k) [0 ..< (n + 7) div 8]"

text \<open>The slice \<open>words[i:i + 8]\<close>.\<close>

definition slice8 :: "'a list \<Rightarrow> nat \<Rightarrow> 'a list" where
  "slice8 words i = take 8 (drop i words)"

text \<open>
  The inner loop over one sentence: every non-empty slice of eight words becomes one segment,
  its words joined by single spaces.
\<close>

definition sentence_segments :: "pystr \<Rightarrow> pystr list" where
  "sentence_segments sentence =
     (let words = py_split sentence
      in map join_space (filter (\<lambda>chunk_words. chunk_words \<noteq> [])
           (map (slice8 words) (range8 (length words)))))"

definition caption_segments :: "pystr \<Rightarrow> pystr list" where
  "caption_segments story_text =
     concat (map sentence_segments (re_split_sentences story_text))"

section \<open>Caption timing (\<open>_create_subtitle_file\<close>, lines 134 to 153)\<close>

text \<open>
  Exceptions are values. \<open>TimeoutExpired\<close> is what \<open>subprocess.run(..., timeout=300)\<close>
  raises; the others stand for the remaining exceptions the modelled code can meet.
\<close>

datatype py_error = ZeroDivisionError | ValueError | OSError | TimeoutExpired | ImportError

definition words_per_second :: real where
  "words_per_second = 2.5"

text \<open>
  The timing loop: \<open>current_time\<close> starts at 0.5; a segment lasts
  \<open>max(word_count / words_per_second, 1.5)\<close> and is followed by a gap of 0.2.
\<close>

fun segment_times_from :: "real \<Rightarrow> pystr list \<Rightarrow> (real \<times> real) list" where
  "segment_times_from current_time [] = []"
| "segment_times_from current_time (segment # rest) =
     (let word_count = length (py_split segment);
          segment_duration = max (real word_count / words_per_second) 1.5
      in (current_time, current_time + segment_duration)
           # segment_times_from (current_time + segment_duration + 0.2) rest)"

text \<open>
  The rescaling step (lines 151 to 153). The division by the last end time raises
  \<open>ZeroDivisionError\<close> when that time is zero; the branch is kept, and
  \<open>last_end_positive\<close> below shows that it is never taken.
\<close>

definition scale_times :: "real \<Rightarrow> (real \<times> real) list \<Rightarrow> py_error + (real \<times> real) list" where
  "scale_times duration segment_times =
     (if segment_times \<noteq> [] \<and> snd (last segment_times) > duration - 1
      then (if snd (last segment_times) = 0 then Inl ZeroDivisionError
            else (let scale = (duration - 1) / snd (last segment_times)
                  in Inr (map (\<lambda>(s, e). (s * scale, e * scale)) segment_times)))
      else Inr segment_times)"

text \<open>
  The computation of \<open>_create_subtitle_file\<close> up to the point where the file is written:
  \<open>Inr None\<close> is the \<open>return None\<close> of line 132 (no segments), \<open>Inl e\<close> an exception inside
  the \<open>try\<close>, \<open>Inr (Some captions)\<close> the list of (text, start, end) that is written out.
\<close>

definition synthesize :: "pystr \<Rightarrow> real \<Rightarrow> py_error + (pystr \<times> real \<times> real) list option" where
  "synthesize story_text duration =
     (let segments = caption_segments story_text
      in if length segments = 0 then Inr None
         else (case scale_times duration (segment_times_from 0.5 segments) of
                 Inl e \<Rightarrow> Inl e
               | Inr segment_times \<Rightarrow> Inr (Some (zip segments segment_times))))"

text \<open>
  The invariant of a caption sequence in the words of the specification: every segment has
  start before end, starts increase strictly, and a segment ends no later than the next starts.
\<close>

fun ordered_times :: "(real \<times> real) list \<Rightarrow> bool" where
  "ordered_times [] = True"
| "ordered_times [(s, e)] = (s < e)"
| "ordered_times ((s, e) # (s', e') # rest) =
     (s < e \<and> e \<le> s' \<and> s < s' \<and> ordered_times ((s', e') # rest))"

text \<open>The condition of line 151 under which the times are rescaled.\<close>

definition rescaling_triggers :: "pystr \<Rightarrow> real \<Rightarrow> bool" where
  "rescaling_triggers story_text duration =
     (let segment_times = segment_times_from 0.5 (caption_segments story_text)
      in segment_times \<noteq> [] \<and> snd (last segment_times) > duration - 1)"

text \<open>The start time of the first caption of a result, when there is one.\<close>

definition first_start :: "py_error + (pystr \<times> real \<times> real) list option \<Rightarrow> real option" where
  "first_start r = (case r of Inr (Some ((seg, s, e) # rest)) \<Rightarrow> Some s | _ \<Rightarrow> None)"

section \<open>Duration probe and timeline (\<open>_get_audio_duration\<close>, \<open>create_story_video\<close> lines 66 to 73)\<close>

text \<open>
  The files of a session directory, by role: \<open>story_image.png\<close>, the narration audio,
  \<open>captions.srt\<close> and \<open>story_video.mp4\<close>.
\<close>

datatype asset = StoryImage | Narration | CaptionsSrt | StoryVideo

text \<open>
  What \<open>result.stdout.strip()\<close> of the inspection tool can be: empty, text that \<open>float()\<close>
  rejects with \<open>ValueError\<close>, or a number. A subprocess run either raises or completes
  with a return code and its output.
\<close>

datatype probe_stdout = Blank | NotANumber | Seconds real

datatype 'a process = Raises py_error | Completed int 'a

text \<open>
  \<open>_get_audio_duration\<close>: the first \<open>try\<close> returns the parsed duration when the tool exits
  with 0 and prints a number; every other outcome falls through to the estimate
  \<open>st_size / 16000\<close>, and to \<open>None\<close> when \<open>stat\<close> fails as well (\<open>st_size = None\<close>).
\<close>

definition get_audio_duration :: "probe_stdout process \<Rightarrow> nat option \<Rightarrow> real option" where
  "get_audio_duration ffprobe_run st_size =
     (case (case ffprobe_run of
              Raises e \<Rightarrow> None
            | Completed returncode stdout \<Rightarrow>
                (if returncode = 0
                 then (case stdout of Blank \<Rightarrow> None | NotANumber \<Rightarrow> None | Seconds d \<Rightarrow> Some d)
                 else None)) of
        Some d \<Rightarrow> Some d
      | None \<Rightarrow> (case st_size of Some n \<Rightarrow> Some (real n / 16000) | None \<Rightarrow> None))"

text \<open>The inspection tool is unavailable or fails: it yields no parsed duration.\<close>

definition tool_fails :: "probe_stdout process \<Rightarrow> bool" where
  "tool_fails ffprobe_run =
     (case ffprobe_run of
        Raises e \<Rightarrow> True
      | Completed returncode stdout \<Rightarrow>
          returncode \<noteq> 0 \<or> (case stdout of Seconds d \<Rightarrow> False | _ \<Rightarrow> True))"

text \<open>
  Lines 66 to 73: with audio, a missing or short (below 5) probe result is replaced by 30 and
  then 2 seconds of padding are added in both cases; without audio the duration is 30.
\<close>

definition target_duration :: "bool \<Rightarrow> real option \<Rightarrow> real" where
  "target_duration has_audio probed =
     (if has_audio
      then (let duration = (case probed of None \<Rightarrow> 30 | Some d \<Rightarrow> if d < 5 then 30 else d)
            in duration + 2)
      else 30)"

section \<open>Caption file (\<open>_create_subtitle_file\<close> and lines 77 to 82 of its caller)\<close>

text \<open>
  \<open>write_ok\<close> tells whether opening and writing \<open>captions.srt\<close> succeeds; every exception is
  caught at line 171 and gives \<open>None\<close>.
\<close>

definition create_subtitle_file :: "bool \<Rightarrow> pystr \<Rightarrow> real \<Rightarrow> asset option" where
  "create_subtitle_file write_ok story_text duration =
     (case synthesize story_text duration of
        Inl e \<Rightarrow> None
      | Inr None \<Rightarrow> None
      | Inr (Some captions) \<Rightarrow> if write_ok then Some CaptionsSrt else None)"

definition caption_step :: "bool \<Rightarrow> bool \<Rightarrow> pystr \<Rightarrow> real \<Rightarrow> asset option" where
  "caption_step enable_captions write_ok story_text duration =
     (if enable_captions \<and> story_text \<noteq> []
      then create_subtitle_file write_ok story_text duration
      else None)"

section \<open>Encoder invocation (\<open>_create_video_ffmpeg\<close>, \<open>_create_simple_video\<close>)\<close>

text \<open>
  A command, as far as the attempts differ: whether the audio input is given, and the filter
  chain passed with \<open>-vf\<close> (absent in the simple command).
\<close>

datatype vfilter = Scale | Pad | Zoompan | Subtitles

datatype command = Ffmpeg bool "vfilter list option"

text \<open>
  One attempt inside its \<open>try\<close>: an exception (among them \<open>TimeoutExpired\<close> after 300
  seconds) or a return code; the flag tells whether the output file exists afterwards.
\<close>

datatype run_result = RunRaises py_error bool | Exit int bool

definition filter_chain :: "bool \<Rightarrow> vfilter list" where
  "filter_chain with_subtitles = [Scale, Pad, Zoompan] @ (if with_subtitles then [Subtitles] else [])"

definition output_after :: "run_result \<Rightarrow> asset set \<Rightarrow> asset set" where
  "output_after r files =
     (if (case r of RunRaises e ex \<Rightarrow> ex | Exit rc ex \<Rightarrow> ex)
      then insert StoryVideo files else files - {StoryVideo})"

text \<open>
  Both functions return the success flag, the files afterwards and the commands attempted, in
  order. An exception ends the function with \<open>False\<close> (lines 324 to 326 and 378 to 380).
\<close>

definition create_simple_video ::
  "(command \<Rightarrow> run_result) \<Rightarrow> asset set \<Rightarrow> asset option \<Rightarrow> bool \<times> asset set \<times> command list" where
  "create_simple_video run files audio_path =
     (let cmd = Ffmpeg (audio_path \<noteq> None \<and> Narration \<in> files) None;
          files' = output_after (run cmd) files
      in case run cmd of
           RunRaises e ex \<Rightarrow> (False, files', [cmd])
         | Exit returncode ex \<Rightarrow> (returncode = 0 \<and> StoryVideo \<in> files', files', [cmd]))"

function create_video_ffmpeg ::
  "(command \<Rightarrow> run_result) \<Rightarrow> asset set \<Rightarrow> asset option \<Rightarrow> asset option
     \<Rightarrow> bool \<times> asset set \<times> command list" where
  "create_video_ffmpeg run files audio_path subtitle_path =
     (let cmd = Ffmpeg (audio_path \<noteq> None \<and> Narration \<in> files)
                  (Some (filter_chain (subtitle_path \<noteq> None \<and> CaptionsSrt \<in> files)));
          files' = output_after (run cmd) files
      in case run cmd of
           RunRaises e ex \<Rightarrow> (False, files', [cmd])
         | Exit returncode ex \<Rightarrow>
             if returncode = 0 \<and> StoryVideo \<in> files' then (True, files', [cmd])
             else if subtitle_path \<noteq> None
             then (case create_video_ffmpeg run files' audio_path None of
                     (ok, files'', cmds) \<Rightarrow> (ok, files'', cmd # cmds))
             else (case create_simple_video run files' audio_path of
                     (ok, files'', cmds) \<Rightarrow> (ok, files'', cmd # cmds)))"
  by pat_completeness auto
termination
  by (relation "measure (\<lambda>(run, files, audio_path, subtitle_path). if subtitle_path = None then 0 else 1)")
     auto

declare create_video_ffmpeg.simps [simp del]

text \<open>
  The three tiers of the specification as commands: full with captions, full without captions,
  and the bare mux.
\<close>

definition tier_A :: "bool \<Rightarrow> command" where
  "tier_A has_audio = Ffmpeg has_audio (Some [Scale, Pad, Zoompan, Subtitles])"

definition tier_B :: "bool \<Rightarrow> command" where
  "tier_B has_audio = Ffmpeg has_audio (Some [Scale, Pad, Zoompan])"

definition tier_C :: "bool \<Rightarrow> command" where
  "tier_C has_audio = Ffmpeg has_audio None"

text \<open>
  An attempt succeeded (return code 0 and the output exists), or it completed without
  success (a non-zero return code or no output); an attempt that raised is neither.
\<close>

definition succeeded :: "run_result \<Rightarrow> bool" where
  "succeeded r = (case r of RunRaises e ex \<Rightarrow> False | Exit rc ex \<Rightarrow> rc = 0 \<and> ex)"

definition exits_failing :: "run_result \<Rightarrow> bool" where
  "exits_failing r = (case r of RunRaises e ex \<Rightarrow> False | Exit rc ex \<Rightarrow> \<not> (rc = 0 \<and> ex))"

section \<open>Composition (\<open>create_story_video\<close>)\<close>

text \<open>
  Everything outside the program that the composition depends on: the outcome of the
  inspection tool, the size of the audio file, whether the caption file can be written, the
  outcome of each encoder command, and whether querying a path raises.
\<close>

datatype event = Ffprobe | Encoder command | CleanupSession

record env =
  ffprobe :: "probe_stdout process"
  audio_size :: "nat option"
  captions_written :: bool
  ffmpeg :: "command \<Rightarrow> run_result"
  exists_fault :: "asset \<Rightarrow> py_error option"

definition path_exists :: "env \<Rightarrow> asset set \<Rightarrow> asset \<Rightarrow> py_error + bool" where
  "path_exists env files p =
     (case exists_fault env p of Some e \<Rightarrow> Inl e | None \<Rightarrow> Inr (p \<in> files))"

text \<open>
  The body of the \<open>try\<close> of \<open>create_story_video\<close>. \<open>image_ok\<close> tells whether
  \<open>_save_base64_image\<close> decodes the payload and writes the image; it catches its own
  exceptions, so a payload that cannot be decoded leaves the directory as it was. The result
  is the returned path or the exception, the files afterwards, and the subprocesses started.
\<close>

definition create_story_video_try ::
  "env \<Rightarrow> asset set \<Rightarrow> bool \<Rightarrow> asset option \<Rightarrow> pystr \<Rightarrow> bool
     \<Rightarrow> (py_error + asset option) \<times> asset set \<times> event list" where
  "create_story_video_try env files image_ok audio_path story_text enable_captions =
     (let files1 = (if image_ok then insert StoryImage files else files)
      in case path_exists env files1 StoryImage of
           Inl e \<Rightarrow> (Inl e, files1, [])
         | Inr image_exists \<Rightarrow>
             if \<not> image_exists then (Inr None, files1, [])
             else (case (case audio_path of None \<Rightarrow> Inr False
                                          | Some a \<Rightarrow> path_exists env files1 a) of
                     Inl e \<Rightarrow> (Inl e, files1, [])
                   | Inr has_audio \<Rightarrow>
                       (let probed = (if has_audio
                                      then get_audio_duration (ffprobe env) (audio_size env)
                                      else None);
                            probe_events = (if has_audio then [Ffprobe] else []);
                            duration = target_duration has_audio probed;
                            subtitle_path = caption_step enable_captions (captions_written env)
                                              story_text duration;
                            files2 = (case subtitle_path of None \<Rightarrow> files1
                                                           | Some p \<Rightarrow> insert p files1)
                        in case create_video_ffmpeg (ffmpeg env) files2 audio_path subtitle_path of
                             (success, files3, cmds) \<Rightarrow>
                               (let events = probe_events @ map Encoder cmds
                                in if \<not> success then (Inr None, files3, events)
                                   else (case path_exists env files3 StoryVideo of
                                           Inl e \<Rightarrow> (Inl e, files3, events)
                                         | Inr video_exists \<Rightarrow>
                                             (Inr (if video_exists then Some StoryVideo else None),
                                              files3, events))))))"

text \<open>The \<open>except Exception\<close> of lines 101 to 105 turns every exception into \<open>None\<close>.\<close>

definition create_story_video ::
  "env \<Rightarrow> asset set \<Rightarrow> bool \<Rightarrow> asset option \<Rightarrow> pystr \<Rightarrow> bool
     \<Rightarrow> (py_error + asset option) \<times> asset set \<times> event list" where
  "create_story_video env files image_ok audio_path story_text enable_captions =
     (case create_story_video_try env files image_ok audio_path story_text enable_captions of
        (Inl e, files', events) \<Rightarrow> (Inr None, files', events)
      | (Inr video_path, files', events) \<Rightarrow> (Inr video_path, files', events))"

section \<open>Session directories (\<open>file_handler.py\<close>) and the request handler (\<open>main.py\<close>)\<close>

text \<open>
  The temporary directory maps a session to the files of its directory, when it exists.
  \<open>shutil.rmtree\<close> removes the directory or raises, leaving some files behind.
\<close>

type_synonym session = nat
type_synonym filesystem = "session \<Rightarrow> asset set option"

datatype rmtree_outcome = Removed | RmtreeRaises py_error "asset set"

definition cleanup_session_try ::
  "rmtree_outcome \<Rightarrow> filesystem \<Rightarrow> session \<Rightarrow> (py_error + unit) \<times> filesystem" where
  "cleanup_session_try rmtree fs session_dir =
     (case fs session_dir of
        None \<Rightarrow> (Inr (), fs)
      | Some files \<Rightarrow>
          (case rmtree of
             Removed \<Rightarrow> (Inr (), fs(session_dir := None))
           | RmtreeRaises e rest \<Rightarrow> (Inl e, fs(session_dir \<mapsto> rest))))"

text \<open>
  \<open>cleanup_session\<close>: the exception of the \<open>try\<close> is caught and a warning is printed; the
  last component counts the warnings.
\<close>

definition cleanup_session ::
  "rmtree_outcome \<Rightarrow> filesystem \<Rightarrow> session \<Rightarrow> (py_error + unit) \<times> filesystem \<times> nat" where
  "cleanup_session rmtree fs session_dir =
     (case cleanup_session_try rmtree fs session_dir of
        (Inl e, fs') \<Rightarrow> (Inr (), fs', 1)
      | (Inr u, fs') \<Rightarrow> (Inr (), fs', 0))"

text \<open>\<open>create_session_dir\<close>: \<open>mkdir(parents=True, exist_ok=True)\<close> on a fresh identifier.\<close>

definition create_session_dir :: "filesystem \<Rightarrow> session \<Rightarrow> filesystem" where
  "create_session_dir fs session_dir =
     (case fs session_dir of None \<Rightarrow> fs(session_dir \<mapsto> {}) | Some files \<Rightarrow> fs)"

datatype response = StreamingResponse asset | HTTPException nat

definition respond_after_cleanup ::
  "response \<Rightarrow> rmtree_outcome \<Rightarrow> filesystem \<Rightarrow> session \<Rightarrow> event list
     \<Rightarrow> response \<times> filesystem \<times> event list" where
  "respond_after_cleanup resp rmtree fs session_dir events =
     (case cleanup_session rmtree fs session_dir of
        (r, fs', warnings) \<Rightarrow> (resp, fs', events @ [CleanupSession]))"

text \<open>
  \<open>generate_video\<close> of \<open>main.py\<close>: \<open>narration\<close> is the outcome of the narration service (an
  exception, or whether an audio file was produced). Every failure runs \<open>cleanup_session\<close>
  and answers with status 500; on success the cleanup is the background task that runs after
  the response.
\<close>

definition generate_video ::
  "env \<Rightarrow> (py_error + bool) \<Rightarrow> rmtree_outcome \<Rightarrow> filesystem \<Rightarrow> session \<Rightarrow> bool \<Rightarrow> pystr \<Rightarrow> bool
     \<Rightarrow> response \<times> filesystem \<times> event list" where
  "generate_video env narration rmtree fs session_dir image_ok story_text enable_captions =
     (if story_text = [] then (HTTPException 400, fs, [])
      else
        (let fs1 = create_session_dir fs session_dir;
             files = (case fs1 session_dir of Some f \<Rightarrow> f | None \<Rightarrow> {})
         in case narration of
              Inl e \<Rightarrow> respond_after_cleanup (HTTPException 500) rmtree fs1 session_dir []
            | Inr narrated \<Rightarrow>
                (let audio_path = (if narrated then Some Narration else None);
                     files1 = (if narrated then insert Narration files else files)
                 in case create_story_video env files1 image_ok audio_path story_text enable_captions of
                      (Inl e, files2, events) \<Rightarrow>
                        respond_after_cleanup (HTTPException 500) rmtree
                          (fs1(session_dir \<mapsto> files2)) session_dir events
                    | (Inr None, files2, events) \<Rightarrow>
                        respond_after_cleanup (HTTPException 500) rmtree
                          (fs1(session_dir \<mapsto> files2)) session_dir events
                    | (Inr (Some video_path), files2, events) \<Rightarrow>
                        (case path_exists env files2 video_path of
                           Inr True \<Rightarrow>
                             respond_after_cleanup (StreamingResponse video_path) rmtree
                               (fs1(session_dir \<mapsto> files2)) session_dir events
                         | _ \<Rightarrow>
                             respond_after_cleanup (HTTPException 500) rmtree
                               (fs1(session_dir \<mapsto> files2)) session_dir events))))"

section \<open>Words are preserved\<close>

lemma split_from_append_word:
  "\<forall>c \<in> set w. \<not> isspace c \<Longrightarrow> split_from acc (w @ s) = split_from (acc @ w) s"
  by (induction w arbitrary: acc) auto

lemma split_from_at_space:
  "isspace c \<Longrightarrow> split_from w (a @ c # b) = split_from w a @ split_from [] b"
  by (induction a arbitrary: w) auto

lemma split_from_dropWhile:
  "split_from [] (dropWhile isspace s) = split_from [] s"
  by (induction s) auto

lemma re_split_from_words:
  "concat (map py_split (re_split_from cur s)) = py_split (cur @ s)"
proof (induction cur s rule: re_split_from.induct)
  case (1 cur)
  show ?case by simp
next
  case (2 cur c cs)
  show ?case
  proof (cases "isspace c \<and> cur \<noteq> [] \<and> is_terminal (last cur)")
    case True
    then have "concat (map py_split (re_split_from cur (c # cs)))
        = py_split cur @ py_split (dropWhile isspace cs)"
      using 2(1) by simp
    also have "\<dots> = py_split cur @ py_split cs"
      by (simp add: py_split_def split_from_dropWhile)
    also have "\<dots> = py_split (cur @ c # cs)"
      using True by (simp add: py_split_def split_from_at_space)
    finally show ?thesis .
  next
    case False
    then show ?thesis using 2(2) by auto
  qed
qed

lemma split_from_words_ok:
  "\<forall>c \<in> set acc. \<not> isspace c \<Longrightarrow>
   \<forall>w \<in> set (split_from acc s). w \<noteq> [] \<and> (\<forall>c \<in> set w. \<not> isspace c)"
proof (induction s arbitrary: acc)
  case Nil
  then show ?case by simp
next
  case (Cons a s)
  have e: "\<forall>w \<in> set (split_from [] s). w \<noteq> [] \<and> (\<forall>c \<in> set w. \<not> isspace c)"
    using Cons.IH [of "[]"] by simp
  show ?case
  proof (cases "isspace a")
    case True
    then show ?thesis using e Cons.prems by auto
  next
    case False
    then have "\<forall>c \<in> set (acc @ [a]). \<not> isspace c" using Cons.prems by auto
    from Cons.IH [OF this] show ?thesis using False by simp
  qed
qed

lemma py_split_words_ok:
  "w \<in> set (py_split s) \<Longrightarrow> w \<noteq> [] \<and> (\<forall>c \<in> set w. \<not> isspace c)"
  unfolding py_split_def using split_from_words_ok [of "[]" s] by simp

lemma isspace_32: "isspace 32"
  by (simp add: isspace_def)

lemma py_split_single_word:
  "w \<noteq> [] \<Longrightarrow> \<forall>c \<in> set w. \<not> isspace c \<Longrightarrow> py_split w = [w]"
  unfolding py_split_def using split_from_append_word [of w "[]" "[]"] by simp

lemma py_split_join_space:
  "\<forall>w \<in> set ws. w \<noteq> [] \<and> (\<forall>c \<in> set w. \<not> isspace c) \<Longrightarrow> py_split (join_space ws) = ws"
proof (induction ws rule: join_space.induct)
  case 1
  show ?case by (simp add: py_split_def)
next
  case (2 w)
  then show ?case by (simp add: py_split_single_word)
next
  case (3 w v ws)
  have "py_split (join_space (w # v # ws)) = py_split w @ py_split (join_space (v # ws))"
    using split_from_at_space [OF isspace_32, of "[]" w "join_space (v # ws)"]
    by (simp add: py_split_def)
  then show ?case using 3 by (simp add: py_split_single_word)
qed

lemma concat_slices: "concat (map (\<lambda>k. slice8 ws (8 * k)) [0 ..< m]) = take (8 * m) ws"
proof (induction m)
  case 0
  show ?case by simp
next
  case (Suc m)
  have "concat (map (\<lambda>k. slice8 ws (8 * k)) [0 ..< Suc m])
      = take (8 * m) ws @ take 8 (drop (8 * m) ws)"
    using Suc by (simp add: slice8_def)
  also have "\<dots> = take (8 * m + 8) ws"
    by (rule take_add [symmetric])
  also have "8 * m + 8 = 8 * Suc m"
    by simp
  finally show ?case .
qed

lemma concat_range8_slices: "concat (map (slice8 ws) (range8 (length ws))) = ws"
proof -
  have "length ws \<le> 8 * ((length ws + 7) div 8)" by arith
  then show ?thesis unfolding range8_def by (simp add: concat_slices comp_def)
qed

lemma concat_filter_nonempty: "concat (filter (\<lambda>xs. xs \<noteq> []) xss) = concat xss"
  by (induction xss) auto

lemma slice8_subset: "set (slice8 ws i) \<subseteq> set ws"
  unfolding slice8_def by (meson set_take_subset set_drop_subset subset_trans)

lemma sentence_segments_words:
  "concat (map py_split (sentence_segments sentence)) = py_split sentence"
proof -
  let ?ws = "py_split sentence"
  let ?chunks = "filter (\<lambda>ch. ch \<noteq> []) (map (slice8 ?ws) (range8 (length ?ws)))"
  have ok: "py_split (join_space ch) = ch" if "ch \<in> set ?chunks" for ch
  proof (rule py_split_join_space, rule ballI)
    fix w assume w: "w \<in> set ch"
    from that obtain i where "ch = slice8 ?ws i" by auto
    with w have "w \<in> set ?ws" using slice8_subset [of ?ws i] by auto
    then show "w \<noteq> [] \<and> (\<forall>c \<in> set w. \<not> isspace c)" by (rule py_split_words_ok)
  qed
  have "map py_split (sentence_segments sentence) = map (\<lambda>ch. py_split (join_space ch)) ?chunks"
    by (simp add: sentence_segments_def Let_def comp_def)
  also have "\<dots> = ?chunks"
    by (rule map_idI) (rule ok)
  finally have "concat (map py_split (sentence_segments sentence)) = concat ?chunks" by simp
  then show ?thesis by (simp add: concat_filter_nonempty concat_range8_slices)
qed

lemma concat_map_concat_map:
  "concat (map g (concat (map f xs))) = concat (map (\<lambda>x. concat (map g (f x))) xs)"
  by (induction xs) auto

lemma caption_segments_words:
  "concat (map py_split (caption_segments story_text)) = py_split story_text"
proof -
  have "concat (map py_split (caption_segments story_text))
      = concat (map (\<lambda>s. concat (map py_split (sentence_segments s))) (re_split_sentences story_text))"
    unfolding caption_segments_def by (rule concat_map_concat_map)
  also have "\<dots> = concat (map py_split (re_split_sentences story_text))"
    by (simp add: sentence_segments_words)
  also have "\<dots> = py_split story_text"
    using re_split_from_words [of "[]" story_text] by (simp add: re_split_sentences_def)
  finally show ?thesis .
qed

text \<open>
  C9. For every story text, the words of all caption segments, concatenated in order, are
  exactly the whitespace-separated words of the text: splitting into sentences and into chunks
  of eight drops, duplicates and reorders nothing.
\<close>

theorem caption_segments_preserve_words:
  "concat (map py_split (caption_segments story_text)) = py_split story_text"
  by (rule caption_segments_words)

section \<open>Caption timing\<close>

lemma length_segment_times_from: "length (segment_times_from t segs) = length segs"
  by (induction segs arbitrary: t) (auto simp: Let_def)

lemma segment_times_from_ends:
  "(s, e) \<in> set (segment_times_from t segs) \<Longrightarrow> t \<le> s \<and> s + 3 / 2 \<le> e"
proof (induction segs arbitrary: t)
  case Nil
  then show ?case by simp
next
  case (Cons seg segs)
  let ?d = "max (real (length (py_split seg)) / words_per_second) 1.5"
  from Cons.prems consider "s = t \<and> e = t + ?d"
    | "(s, e) \<in> set (segment_times_from (t + ?d + 0.2) segs)"
    by (auto simp: Let_def)
  then show ?case
  proof cases
    case 1
    then show ?thesis by auto
  next
    case 2
    from Cons.IH [OF this] show ?thesis by auto
  qed
qed

lemma ordered_times_Cons:
  "ordered_times ((s, e) # ts) \<longleftrightarrow>
     s < e \<and> (\<forall>p \<in> set (take 1 ts). e \<le> fst p \<and> s < fst p) \<and> ordered_times ts"
  by (cases ts) auto

lemma segment_times_from_ordered: "ordered_times (segment_times_from t segs)"
proof (induction segs arbitrary: t)
  case Nil
  show ?case by simp
next
  case (Cons seg segs)
  let ?d = "max (real (length (py_split seg)) / words_per_second) 1.5"
  have d: "3 / 2 \<le> ?d" by simp
  have "e' \<le> fst p \<and> t < fst p"
    if "p \<in> set (take 1 (segment_times_from (t + ?d + 0.2) segs))" and "e' = t + ?d" for p e'
  proof -
    from that(1) have "p \<in> set (segment_times_from (t + ?d + 0.2) segs)"
      by (rule in_set_takeD)
    then have "t + ?d + 0.2 \<le> fst p"
      using segment_times_from_ends [of "fst p" "snd p"] by simp
    then show ?thesis using d that(2) by linarith
  qed
  moreover have "t < t + ?d" using d by linarith
  ultimately show ?case
    using Cons.IH [of "t + ?d + 0.2"] by (simp add: Let_def ordered_times_Cons)
qed

lemma ordered_times_scale:
  "0 < c \<Longrightarrow> ordered_times ts \<Longrightarrow> ordered_times (map (\<lambda>(s, e). (s * c, e * c)) ts)"
  by (induction ts rule: ordered_times.induct) auto

lemma last_end_positive:
  assumes "segs \<noteq> []"
  shows "2 \<le> snd (last (segment_times_from (1 / 2) segs))"
proof -
  let ?ts = "segment_times_from (1 / 2) segs"
  have "?ts \<noteq> []" using assms length_segment_times_from [of "1 / 2" segs] by auto
  then have "last ?ts \<in> set ?ts" by simp
  then show ?thesis
    using segment_times_from_ends [of "fst (last ?ts)" "snd (last ?ts)" "1 / 2" segs] by simp
qed

lemma snd_last_zip:
  assumes "length xs = length ys" and "ys \<noteq> []"
  shows "snd (last (zip xs ys)) = last ys"
proof -
  have "zip xs ys \<noteq> []" using assms by (cases xs; cases ys) auto
  then have "last (map snd (zip xs ys)) = snd (last (zip xs ys))" by (rule last_map)
  then show ?thesis using assms(1) by (simp add: map_snd_zip)
qed

lemma synthesize_cases:
  "synthesize story_text duration =
     (let segments = caption_segments story_text; segment_times = segment_times_from 0.5 segments
      in if segments = [] then Inr None
         else if snd (last segment_times) > duration - 1
         then Inr (Some (zip segments
                (map (\<lambda>(s, e). (s * ((duration - 1) / snd (last segment_times)),
                                  e * ((duration - 1) / snd (last segment_times)))) segment_times)))
         else Inr (Some (zip segments segment_times)))"
proof (cases "caption_segments story_text = []")
  case True
  then show ?thesis by (simp add: synthesize_def)
next
  case False
  then have "2 \<le> snd (last (segment_times_from (1 / 2) (caption_segments story_text)))"
    by (rule last_end_positive)
  moreover have "segment_times_from (1 / 2) (caption_segments story_text) \<noteq> []"
    using False length_segment_times_from [of "1 / 2" "caption_segments story_text"] by auto
  ultimately show ?thesis using False
    by (simp add: synthesize_def scale_times_def Let_def)
qed

text \<open>
  C1, amended. For every story text and every target duration above 1 second, the synthesis
  returns without an exception, and the caption times it produces have start before end,
  strictly increasing starts and no overlap between consecutive segments; whenever the
  rescaling step triggers, the last segment ends no later than the target duration minus 1.
  (The specification says: for every positive target duration.)
\<close>

theorem captions_well_timed:
  assumes "1 < duration"
  shows "\<exists>r. synthesize story_text duration = Inr r \<and>
     (\<forall>caps. r = Some caps \<longrightarrow>
        ordered_times (map snd caps) \<and>
        (rescaling_triggers story_text duration \<longrightarrow> snd (snd (last caps)) \<le> duration - 1))"
proof (cases "caption_segments story_text = []")
  case True
  then show ?thesis by (simp add: synthesize_cases)
next
  case False
  let ?segs = "caption_segments story_text"
  let ?ts = "segment_times_from (1 / 2) ?segs"
  let ?c = "(duration - 1) / snd (last ?ts)"
  have len: "length ?ts = length ?segs" by (rule length_segment_times_from)
  have ne: "?ts \<noteq> []" using False len by auto
  have pos: "2 \<le> snd (last ?ts)" using False by (rule last_end_positive)
  show ?thesis
  proof (cases "snd (last ?ts) > duration - 1")
    case True
    let ?sc = "map (\<lambda>(s, e). (s * ?c, e * ?c)) ?ts"
    have c: "0 < ?c" using assms pos by simp
    have syn: "synthesize story_text duration = Inr (Some (zip ?segs ?sc))"
      using False True by (simp add: synthesize_cases Let_def)
    have ms: "map snd (zip ?segs ?sc) = ?sc" using len by (simp add: map_snd_zip)
    have "ordered_times ?sc"
      using c segment_times_from_ordered by (rule ordered_times_scale)
    moreover have "snd (snd (last (zip ?segs ?sc))) = duration - 1"
    proof -
      have "snd (last (zip ?segs ?sc)) = last ?sc"
        using ne len by (intro snd_last_zip) auto
      also have "\<dots> = (fst (last ?ts) * ?c, snd (last ?ts) * ?c)"
        using ne by (simp add: last_map case_prod_beta)
      finally show ?thesis using pos by simp
    qed
    ultimately show ?thesis using syn ms by simp
  next
    case nt: False
    have syn: "synthesize story_text duration = Inr (Some (zip ?segs ?ts))"
      using False nt by (simp add: synthesize_cases Let_def)
    have "map snd (zip ?segs ?ts) = ?ts" using len by (simp add: map_snd_zip)
    moreover have "\<not> rescaling_triggers story_text duration"
      using nt by (simp add: rescaling_triggers_def Let_def)
    ultimately show ?thesis using syn segment_times_from_ordered by simp
  qed
qed

lemma py_split_ab_c:
  "py_split [97, 32, 98, 46] = [[97], [98, 46]]" "py_split [99] = [[99]]"
  by (simp_all add: py_split_def isspace_def)

lemma caption_segments_ab_c: "caption_segments [97, 32, 98, 46, 32, 99] = [[97, 32, 98, 46], [99]]"
  by code_simp

theorem captions_well_timed_witness:
  "(1::real) < 3 \<and> rescaling_triggers [97, 32, 98, 46, 32, 99] 3 \<and>
   (\<exists>caps. synthesize [97, 32, 98, 46, 32, 99] 3 = Inr (Some caps) \<and>
      ordered_times (map snd caps) \<and> snd (snd (last caps)) \<le> 3 - 1)"
proof -
  have t: "rescaling_triggers [97, 32, 98, 46, 32, 99] 3"
    by (simp add: rescaling_triggers_def caption_segments_ab_c py_split_ab_c words_per_second_def)
  have "\<exists>caps. synthesize [97, 32, 98, 46, 32, 99] 3 = Inr (Some caps)"
    by (simp add: synthesize_cases caption_segments_ab_c Let_def)
  then obtain caps where c: "synthesize [97, 32, 98, 46, 32, 99] 3 = Inr (Some caps)" ..
  have "ordered_times (map snd caps) \<and> snd (snd (last caps)) \<le> 3 - 1"
    using captions_well_timed [of 3 "[97, 32, 98, 46, 32, 99]"] c t by simp
  then show ?thesis using c t by simp
qed

lemma py_split_a: "py_split [97] = [[97]]"
  by (simp add: py_split_def isspace_def)

lemma caption_segments_a: "caption_segments [97] = [[97]]"
  by code_simp

lemma synth_a_1: "synthesize [97] 1 = Inr (Some [([97], 0, 0)])"
  by (simp add: synthesize_cases caption_segments_a py_split_a words_per_second_def)

text \<open>
  At the positive target duration 1 the scale factor is 0: the single caption of the text
  "a" gets start 0 and end 0, so start before end fails.
\<close>

theorem rescale_at_duration_one_counterexample:
  "(0::real) < 1 \<and> synthesize [97] 1 = Inr (Some [([97], 0, 0)]) \<and>
   \<not> ordered_times (map snd [([97], 0::real, 0::real)])"
  by (simp add: synth_a_1)

section \<open>Texts without words\<close>

lemma split_from_Nil_iff: "split_from w s = [] \<longleftrightarrow> w = [] \<and> (\<forall>c \<in> set s. isspace c)"
  by (induction s arbitrary: w) auto

lemma py_split_Nil_iff: "py_split s = [] \<longleftrightarrow> (\<forall>c \<in> set s. isspace c)"
  by (simp add: py_split_def split_from_Nil_iff)

lemma py_split_join_slice:
  "py_split (join_space (slice8 (py_split s) i)) = slice8 (py_split s) i"
proof (rule py_split_join_space, rule ballI)
  fix w assume "w \<in> set (slice8 (py_split s) i)"
  then have "w \<in> set (py_split s)" using slice8_subset [of "py_split s" i] by auto
  then show "w \<noteq> [] \<and> (\<forall>c \<in> set w. \<not> isspace c)" by (rule py_split_words_ok)
qed

lemma sentence_segments_nonblank:
  assumes "seg \<in> set (sentence_segments sentence)"
  shows "py_split seg \<noteq> []"
proof -
  from assms obtain i where "seg = join_space (slice8 (py_split sentence) i)"
    and "slice8 (py_split sentence) i \<noteq> []"
    by (auto simp: sentence_segments_def Let_def)
  then show ?thesis by (simp add: py_split_join_slice)
qed

lemma caption_segments_Nil_iff:
  "caption_segments story_text = [] \<longleftrightarrow> (\<forall>c \<in> set story_text. isspace c)"
proof
  assume "caption_segments story_text = []"
  then have "py_split story_text = []"
    using caption_segments_words [of story_text] by simp
  then show "\<forall>c \<in> set story_text. isspace c" by (simp add: py_split_Nil_iff)
next
  assume "\<forall>c \<in> set story_text. isspace c"
  then have "concat (map py_split (caption_segments story_text)) = []"
    by (simp add: caption_segments_words py_split_Nil_iff)
  then have e: "\<forall>seg \<in> set (caption_segments story_text). py_split seg = []" by simp
  show "caption_segments story_text = []"
  proof (rule ccontr)
    assume "caption_segments story_text \<noteq> []"
    then obtain seg where seg: "seg \<in> set (caption_segments story_text)"
      by (cases "caption_segments story_text") auto
    then obtain sentence where "seg \<in> set (sentence_segments sentence)"
      by (auto simp: caption_segments_def)
    then have "py_split seg \<noteq> []" by (rule sentence_segments_nonblank)
    then show False using e seg by simp
  qed
qed

text \<open>
  C4, amended. A story text with at least one character that is not whitespace yields at
  least one caption segment; a text that is empty or consists of whitespace only yields none:
  the synthesis returns no caption list, the caption step of the composition gives no
  subtitle path, and no exception arises. (The specification says: every non-empty text yields a
  segment.)
\<close>

theorem captions_iff_nonblank:
  "((\<exists>c \<in> set story_text. \<not> isspace c) \<longrightarrow>
      (\<exists>caps. synthesize story_text duration = Inr (Some caps) \<and> 1 \<le> length caps)) \<and>
   ((\<forall>c \<in> set story_text. isspace c) \<longrightarrow>
      synthesize story_text duration = Inr None \<and>
      caption_step enable_captions write_ok story_text duration = None)"
proof -
  have "\<exists>caps. synthesize story_text duration = Inr (Some caps) \<and> 1 \<le> length caps"
    if "\<exists>c \<in> set story_text. \<not> isspace c"
  proof -
    from that have ne: "caption_segments story_text \<noteq> []"
      by (simp add: caption_segments_Nil_iff)
    then have "1 \<le> length (caption_segments story_text)"
      by (cases "caption_segments story_text") auto
    then show ?thesis
      using ne by (simp add: synthesize_cases Let_def length_segment_times_from)
  qed
  moreover have "synthesize story_text duration = Inr None \<and>
      caption_step enable_captions write_ok story_text duration = None"
    if "\<forall>c \<in> set story_text. isspace c"
  proof -
    from that have "caption_segments story_text = []"
      by (simp add: caption_segments_Nil_iff)
    then show ?thesis
      by (simp add: synthesize_cases caption_step_def create_subtitle_file_def)
  qed
  ultimately show ?thesis by blast
qed

theorem captions_iff_nonblank_witness:
  "(\<exists>caps. synthesize [97] 30 = Inr (Some caps) \<and> 1 \<le> length caps) \<and>
   synthesize [] 30 = Inr None \<and> caption_step True True [] 30 = None"
  using captions_iff_nonblank [of "[97]" 30 True True] captions_iff_nonblank [of "[]" 30 True True]
  by (simp add: isspace_def)

text \<open>
  The text of one space is not empty and yields no segment.
\<close>

theorem blank_text_counterexample: "[32] \<noteq> ([] :: pystr) \<and> synthesize [32] 30 = Inr None"
proof -
  have "caption_segments [32] = []"
    by (simp add: caption_segments_Nil_iff isspace_def)
  then show ?thesis by (simp add: synthesize_cases)
qed

section \<open>A paragraph of 120 words\<close>

lemma re_split_from_no_terminal:
  "\<forall>c \<in> set cur \<union> set s. \<not> is_terminal c \<Longrightarrow> re_split_from cur s = [cur @ s]"
proof (induction s arbitrary: cur)
  case Nil
  show ?case by simp
next
  case (Cons c cs)
  have "\<not> (cur \<noteq> [] \<and> is_terminal (last cur))"
    using Cons.prems last_in_set [of cur] by auto
  moreover have "re_split_from (cur @ [c]) cs = [(cur @ [c]) @ cs]"
    using Cons.prems by (intro Cons.IH) auto
  ultimately show ?case by auto
qed

lemma set_join_space: "set (join_space ws) \<subseteq> insert 32 (\<Union> (set ` set ws))"
  by (induction ws rule: join_space.induct) auto

lemma slice8_length: "i + 8 \<le> length ws \<Longrightarrow> length (slice8 ws i) = 8"
  by (simp add: slice8_def)

lemma range8_120: "range8 120 = [0, 8, 16, 24, 32, 40, 48, 56, 64, 72, 80, 88, 96, 104, 112]"
  by code_simp

lemma times_of_eights:
  "\<forall>seg \<in> set segs. length (py_split seg) = 8 \<Longrightarrow>
   segment_times_from t segs =
     map (\<lambda>k. (t + 17 / 5 * real k, t + 17 / 5 * real k + 16 / 5)) [0 ..< length segs]"
proof (induction segs arbitrary: t)
  case Nil
  show ?case by simp
next
  case (Cons seg segs)
  have d: "max (real (length (py_split seg)) / words_per_second) 1.5 = 16 / 5"
    using Cons.prems by (simp add: words_per_second_def)
  have e: "t + 16 / 5 + 0.2 = t + 17 / 5" by simp
  have step: "segment_times_from t (seg # segs) = (t, t + 16 / 5) # segment_times_from (t + 17 / 5) segs"
    by (simp only: segment_times_from.simps Let_def d e)
  have "segment_times_from (t + 17 / 5) segs =
      map (\<lambda>k. (t + 17 / 5 + 17 / 5 * real k, t + 17 / 5 + 17 / 5 * real k + 16 / 5)) [0 ..< length segs]"
    using Cons.prems by (intro Cons.IH) auto
  also have "\<dots> = map (\<lambda>k. (t + 17 / 5 * real k, t + 17 / 5 * real k + 16 / 5)) (map Suc [0 ..< length segs])"
    by (auto simp: field_simps)
  finally have "segment_times_from (t + 17 / 5) segs =
      map (\<lambda>k. (t + 17 / 5 * real k, t + 17 / 5 * real k + 16 / 5)) [Suc 0 ..< Suc (length segs)]"
    by (simp only: map_Suc_upt)
  then show ?case
    unfolding step by (simp add: upt_conv_Cons del: upt_Suc)
qed

lemma single_sentence_segments:
  assumes "re_split_sentences story_text = [story_text]"
    and "length (py_split story_text) = 120"
  shows "length (caption_segments story_text) = 15"
    and "\<forall>seg \<in> set (caption_segments story_text). length (py_split seg) = 8"
proof -
  let ?ws = "py_split story_text"
  let ?sl = "map (slice8 ?ws) (range8 120)"
  have l8: "\<forall>ch \<in> set ?sl. length ch = 8"
    using assms(2) by (auto simp: range8_120 slice8_length)
  then have "filter (\<lambda>ch. ch \<noteq> []) ?sl = ?sl" by (intro filter_True) auto
  then have segs: "caption_segments story_text = map join_space ?sl"
    using assms by (simp add: caption_segments_def sentence_segments_def Let_def)
  show "length (caption_segments story_text) = 15"
    unfolding segs by (simp add: range8_120)
  show "\<forall>seg \<in> set (caption_segments story_text). length (py_split seg) = 8"
  proof
    fix seg assume "seg \<in> set (caption_segments story_text)"
    then obtain i where i: "seg = join_space (slice8 ?ws i)" "slice8 ?ws i \<in> set ?sl"
      unfolding segs by auto
    then have "length (slice8 ?ws i) = 8" using l8 by blast
    then show "length (py_split seg) = 8" using i(1) by (simp add: py_split_join_slice)
  qed
qed

lemma single_sentence_synthesize:
  assumes "re_split_sentences story_text = [story_text]"
    and "length (py_split story_text) = 120"
  shows "synthesize story_text 30 = Inr (Some (zip (caption_segments story_text)
      (map (\<lambda>k. ((1 / 2 + 17 / 5 * real k) * (290 / 513),
                  (1 / 2 + 17 / 5 * real k + 16 / 5) * (290 / 513))) [0 ..< 15])))"
proof -
  let ?segs = "caption_segments story_text"
  have len: "length ?segs = 15" and w8: "\<forall>seg \<in> set ?segs. length (py_split seg) = 8"
    using assms by (rule single_sentence_segments)+
  have ts: "segment_times_from (1 / 2) ?segs =
      map (\<lambda>k. (1 / 2 + 17 / 5 * real k, 1 / 2 + 17 / 5 * real k + 16 / 5)) [0 ..< 15]"
    using times_of_eights [OF w8, of "1 / 2"] len by simp
  have "last [0 ..< 15] = (14::nat)" by simp
  then have le: "snd (last (segment_times_from (1 / 2) ?segs)) = 513 / 10"
    unfolding ts by (simp add: last_map del: upt_Suc)
  have ne: "?segs \<noteq> []" using len by auto
  have "synthesize story_text 30 = Inr (Some (zip ?segs
      (map (\<lambda>(s, e). (s * (290 / 513), e * (290 / 513))) (segment_times_from (1 / 2) ?segs))))"
    using ne by (simp add: synthesize_cases Let_def le)
  then show ?thesis
    unfolding ts by (simp add: comp_def del: upt_Suc)
qed

lemma words_120: "py_split (join_space (replicate 120 [97])) = replicate 120 [97]"
  by (rule py_split_join_space) (simp add: isspace_def)

lemma single_120: "re_split_sentences (join_space (replicate 120 [97])) = [join_space (replicate 120 [97])]"
proof -
  have "\<forall>c \<in> set (join_space (replicate 120 [97])). \<not> is_terminal c"
    using set_join_space [of "replicate 120 [97]"] by (auto simp: is_terminal_def)
  then show ?thesis
    using re_split_from_no_terminal [of "[]" "join_space (replicate 120 [97])"]
    by (simp add: re_split_sentences_def)
qed

lemma upt_15: "[0 ..< 15] = 0 # [1 ..< 15]"
  by (simp add: upt_conv_Cons del: upt_Suc)

lemma single_sentence_first_start:
  assumes "re_split_sentences story_text = [story_text]"
    and "length (py_split story_text) = 120"
  shows "first_start (synthesize story_text 30) = Some (145 / 513)"
proof -
  have "length (caption_segments story_text) = 15"
    using assms by (rule single_sentence_segments(1))
  then obtain seg segs where "caption_segments story_text = seg # segs"
    by (cases "caption_segments story_text") auto
  then show ?thesis
    unfolding single_sentence_synthesize [OF assms] upt_15
    by (simp add: first_start_def)
qed

text \<open>
  C6, amended. For a story text of 120 words that the sentence split leaves in one piece
  and a target duration of 30 seconds, the synthesis yields exactly 15 segments of at most 8
  words each and the last segment ends no later than 29 seconds; the provisional times end at
  51.3 seconds, so they are rescaled by 29 / 51.3, and the first segment starts at
  0.5 * 29 / 51.3 = 145 / 513, about 0.283 seconds. (The specification says: about 0.5 seconds, for
  every paragraph of 120 words.)
\<close>

theorem paragraph_120_single_sentence:
  assumes "re_split_sentences story_text = [story_text]"
    and "length (py_split story_text) = 120"
  shows "\<exists>caps. synthesize story_text 30 = Inr (Some caps) \<and> length caps = 15 \<and>
     (\<forall>c \<in> set caps. length (py_split (fst c)) \<le> 8) \<and>
     first_start (synthesize story_text 30) = Some (145 / 513) \<and>
     snd (snd (last caps)) \<le> 29"
proof -
  let ?segs = "caption_segments story_text"
  let ?ts = "map (\<lambda>k. ((1 / 2 + 17 / 5 * real k) * (290 / 513),
                  (1 / 2 + 17 / 5 * real k + 16 / 5) * (290 / 513))) [0 ..< 15]"
  have syn: "synthesize story_text 30 = Inr (Some (zip ?segs ?ts))"
    using assms by (rule single_sentence_synthesize)
  have len: "length ?segs = 15" and w8: "\<forall>seg \<in> set ?segs. length (py_split seg) = 8"
    using assms by (rule single_sentence_segments)+
  have "length (zip ?segs ?ts) = 15" using len by simp
  moreover have "\<forall>c \<in> set (zip ?segs ?ts). length (py_split (fst c)) \<le> 8"
  proof
    fix c assume "c \<in> set (zip ?segs ?ts)"
    then have "(fst c, snd c) \<in> set (zip ?segs ?ts)" by simp
    then have "fst c \<in> set ?segs" by (rule set_zip_leftD)
    then show "length (py_split (fst c)) \<le> 8" using w8 by simp
  qed
  moreover have "snd (snd (last (zip ?segs ?ts))) \<le> 29"
  proof -
    have "last [0 ..< 15] = (14::nat)" by simp
    then have "last ?ts = ((1 / 2 + 17 / 5 * 14) * (290 / 513), (1 / 2 + 17 / 5 * 14 + 16 / 5) * (290 / 513))"
      by (simp add: last_map del: upt_Suc)
    moreover have "snd (last (zip ?segs ?ts)) = last ?ts"
      using len by (intro snd_last_zip) auto
    ultimately show ?thesis by simp
  qed
  ultimately show ?thesis
    using syn single_sentence_first_start [OF assms] by simp
qed

theorem paragraph_120_single_sentence_witness:
  "re_split_sentences (join_space (replicate 120 [97])) = [join_space (replicate 120 [97])] \<and>
   length (py_split (join_space (replicate 120 [97]))) = 120 \<and>
   (\<exists>caps. synthesize (join_space (replicate 120 [97])) 30 = Inr (Some caps) \<and> length caps = 15 \<and>
     (\<forall>c \<in> set caps. length (py_split (fst c)) \<le> 8) \<and>
     first_start (synthesize (join_space (replicate 120 [97])) 30) = Some (145 / 513) \<and>
     snd (snd (last caps)) \<le> 29)"
proof -
  have a: "re_split_sentences (join_space (replicate 120 [97])) = [join_space (replicate 120 [97])]"
    by (rule single_120)
  have b: "length (py_split (join_space (replicate 120 [97]))) = 120"
    by (simp add: words_120)
  show ?thesis
    using a b paragraph_120_single_sentence [OF a b] by (intro conjI) assumption+
qed

text \<open>
  For the text of 120 words "a" separated by single spaces and a target duration of 30, the
  first caption starts at 145 / 513, which is below 0.3 and so not about 0.5.
\<close>

theorem paragraph_120_first_start_counterexample:
  "length (py_split (join_space (replicate 120 [97]))) = 120 \<and>
   first_start (synthesize (join_space (replicate 120 [97])) 30) = Some (145 / 513) \<and>
   (145 / 513 :: real) < 3 / 10"
proof -
  have a: "re_split_sentences (join_space (replicate 120 [97])) = [join_space (replicate 120 [97])]"
    by (rule single_120)
  have b: "length (py_split (join_space (replicate 120 [97]))) = 120"
    by (simp add: words_120)
  from b single_sentence_first_start [OF a b] show ?thesis by simp
qed

section \<open>Duration probe and timeline\<close>

text \<open>
  The caller never passes a target duration below 7 to the caption synthesis: it is 30, 32,
  or a probed duration of at least 5 plus 2.
\<close>

lemma target_duration_at_least_7: "7 \<le> target_duration has_audio probed"
  by (simp add: target_duration_def split: option.splits)

text \<open>
  C5. When the inspection tool is unavailable or fails and the audio file has N bytes, the
  probe returns exactly N / 16000.
\<close>

theorem probe_fallback_exact:
  "tool_fails ffprobe_run \<Longrightarrow> get_audio_duration ffprobe_run (Some n) = Some (real n / 16000)"
  by (auto simp: tool_fails_def get_audio_duration_def split: process.splits probe_stdout.splits)

text \<open>
  An audio file of 480000 bytes with the tool unavailable gives 30 seconds.
\<close>

theorem probe_fallback_exact_witness:
  "tool_fails (Raises OSError) \<and> get_audio_duration (Raises OSError) (Some 480000) = Some 30"
  using probe_fallback_exact [of "Raises OSError" 480000] by (simp add: tool_fails_def)

text \<open>
  C3, amended. With an audio file present, a probed duration d of at least 5 seconds gives
  the target duration d + 2; a probe without result or below 5 seconds gives 30 + 2 = 32, the
  padding being added to the default as well; without audio the target duration is 30. (The
  specification says 30 in the second case.)
\<close>

theorem timeline_policy:
  "(5 \<le> d \<longrightarrow> target_duration True (Some d) = d + 2) \<and>
   (d < 5 \<longrightarrow> target_duration True (Some d) = 32) \<and>
   target_duration True None = 32 \<and>
   target_duration False probed = 30"
  by (simp add: target_duration_def)

theorem timeline_policy_witness:
  "(5::real) \<le> 10 \<and> target_duration True (Some 10) = 12 \<and>
   (3::real) < 5 \<and> target_duration True (Some 3) = 32"
  using timeline_policy [of 10] timeline_policy [of 3] by simp

text \<open>
  With audio present and no probe result the target duration is 32, not 30.
\<close>

theorem timeline_default_counterexample: "target_duration True None = 32 \<and> target_duration True None \<noteq> 30"
  by (simp add: target_duration_def)

section \<open>Encoder degradation\<close>

lemma output_after_keeps [simp]:
  "Narration \<in> output_after r files \<longleftrightarrow> Narration \<in> files"
  "CaptionsSrt \<in> output_after r files \<longleftrightarrow> CaptionsSrt \<in> files"
  by (auto simp: output_after_def)

lemma StoryVideo_output_after [simp]:
  "StoryVideo \<in> output_after (Exit rc ex) files \<longleftrightarrow> ex"
  "StoryVideo \<in> output_after (RunRaises e ex) files \<longleftrightarrow> ex"
  by (auto simp: output_after_def)

lemma attempts_simple:
  "snd (snd (create_simple_video run files audio_path)) = [tier_C (audio_path \<noteq> None \<and> Narration \<in> files)]"
  "fst (create_simple_video run files audio_path) = succeeded (run (tier_C (audio_path \<noteq> None \<and> Narration \<in> files)))"
  by (auto simp: create_simple_video_def Let_def tier_C_def succeeded_def split: run_result.splits)

lemma attempts_no_captions:
  "fst (create_video_ffmpeg run files audio_path None) =
     (let a = audio_path \<noteq> None \<and> Narration \<in> files
      in succeeded (run (tier_B a)) \<or> exits_failing (run (tier_B a)) \<and> succeeded (run (tier_C a)))"
  "snd (snd (create_video_ffmpeg run files audio_path None)) =
     (let a = audio_path \<noteq> None \<and> Narration \<in> files
      in if exits_failing (run (tier_B a)) then [tier_B a, tier_C a] else [tier_B a])"
  using attempts_simple [of run "output_after (run (tier_B (audio_path \<noteq> None \<and> Narration \<in> files))) files" audio_path]
  by (auto simp: create_video_ffmpeg.simps [of run files audio_path None] Let_def tier_B_def filter_chain_def succeeded_def exits_failing_def
      split: run_result.splits prod.splits)

lemma encoder_chain:
  assumes "CaptionsSrt \<in> files"
  shows "fst (create_video_ffmpeg run files audio_path (Some CaptionsSrt)) =
     (let a = audio_path \<noteq> None \<and> Narration \<in> files
      in succeeded (run (tier_A a)) \<or>
         exits_failing (run (tier_A a)) \<and>
           (succeeded (run (tier_B a)) \<or>
            exits_failing (run (tier_B a)) \<and> succeeded (run (tier_C a))))"
    and "snd (snd (create_video_ffmpeg run files audio_path (Some CaptionsSrt))) =
     (let a = audio_path \<noteq> None \<and> Narration \<in> files
      in if \<not> exits_failing (run (tier_A a)) then [tier_A a]
         else if \<not> exits_failing (run (tier_B a)) then [tier_A a, tier_B a]
         else [tier_A a, tier_B a, tier_C a])"
  using assms
    attempts_no_captions [of run "output_after (run (tier_A (audio_path \<noteq> None \<and> Narration \<in> files))) files" audio_path]
  by (auto simp: create_video_ffmpeg.simps [of run files audio_path "Some CaptionsSrt"] Let_def tier_A_def filter_chain_def succeeded_def exits_failing_def
      split: run_result.splits prod.splits)

text \<open>
  C2, amended. With a caption file present, the first attempt is tier A. When an attempt
  completes without success (a non-zero return code, or no output file), the next tier is
  attempted: B after A, C after B; the invocation fails when tier C fails too. An attempt
  that raises, which a timeout after 300 seconds does, ends the invocation at once with
  failure, and no further tier is attempted. (The specification says: a timeout advances to the next
  tier like a non-zero return code.)
\<close>

theorem encoder_degradation:
  assumes "CaptionsSrt \<in> files"
  shows "(let a = audio_path \<noteq> None \<and> Narration \<in> files;
              result = create_video_ffmpeg run files audio_path (Some CaptionsSrt)
          in snd (snd result) =
               (if \<not> exits_failing (run (tier_A a)) then [tier_A a]
                else if \<not> exits_failing (run (tier_B a)) then [tier_A a, tier_B a]
                else [tier_A a, tier_B a, tier_C a]) \<and>
             fst result =
               (succeeded (run (tier_A a)) \<or>
                exits_failing (run (tier_A a)) \<and>
                  (succeeded (run (tier_B a)) \<or>
                   exits_failing (run (tier_B a)) \<and> succeeded (run (tier_C a)))))"
  using encoder_chain [OF assms, of run audio_path] by (simp add: Let_def)

theorem encoder_degradation_witness:
  "CaptionsSrt \<in> {Narration, CaptionsSrt} \<and>
   create_video_ffmpeg (\<lambda>c. Exit 1 False) {Narration, CaptionsSrt} (Some Narration) (Some CaptionsSrt)
     = (False, {Narration, CaptionsSrt}, [tier_A True, tier_B True, tier_C True])"
proof -
  let ?r = "create_video_ffmpeg (\<lambda>c. Exit 1 False) {Narration, CaptionsSrt} (Some Narration) (Some CaptionsSrt)"
  have "CaptionsSrt \<in> {Narration, CaptionsSrt}" by simp
  from encoder_degradation [OF this, of "Some Narration" "\<lambda>c. Exit 1 False"]
  have "snd (snd ?r) = [tier_A True, tier_B True, tier_C True]" and "fst ?r = False"
    by (simp_all add: Let_def exits_failing_def succeeded_def)
  moreover have "fst (snd ?r) = {Narration, CaptionsSrt}"
    by (simp add: create_video_ffmpeg.simps [of _ _ _ "Some CaptionsSrt"]
        create_video_ffmpeg.simps [of _ _ _ None] create_simple_video_def Let_def output_after_def)
  ultimately show ?thesis by (cases ?r) simp
qed

text \<open>
  When the tier A attempt times out, the invocation returns failure after that single
  attempt: tier B is not attempted.
\<close>

theorem timeout_ends_invocation_counterexample:
  "create_video_ffmpeg (\<lambda>c. RunRaises TimeoutExpired False) {Narration, CaptionsSrt}
     (Some Narration) (Some CaptionsSrt)
     = (False, {Narration, CaptionsSrt}, [tier_A True]) \<and>
   tier_B True \<notin> set [tier_A True]"
  by (simp add: create_video_ffmpeg.simps [of _ _ _ "Some CaptionsSrt"] Let_def output_after_def
      tier_A_def tier_B_def filter_chain_def)

section \<open>Workspace cleanup\<close>

text \<open>
  C8. \<open>cleanup_session\<close> never raises, whatever \<open>rmtree\<close> does; on a directory that does
  not exist it changes nothing and prints no warning; it leaves every other directory as it
  was; a second call on the same directory does not raise either, and after a first call that
  removed the directory it changes nothing.
\<close>

theorem cleanup_session_idempotent:
  "fst (cleanup_session rm fs d) = Inr () \<and>
   (fs d = None \<longrightarrow> cleanup_session rm fs d = (Inr (), fs, 0)) \<and>
   (\<forall>d'. d' \<noteq> d \<longrightarrow> fst (snd (cleanup_session rm fs d)) d' = fs d') \<and>
   fst (cleanup_session rm' (fst (snd (cleanup_session rm fs d))) d) = Inr () \<and>
   (rm = Removed \<longrightarrow>
      cleanup_session rm' (fst (snd (cleanup_session rm fs d))) d
        = (Inr (), fst (snd (cleanup_session rm fs d)), 0))"
  by (auto simp: cleanup_session_def cleanup_session_try_def split: option.splits rmtree_outcome.splits)

theorem cleanup_session_idempotent_witness:
  "cleanup_session Removed ((\<lambda>d. None)(7 \<mapsto> {StoryImage})) 7 = (Inr (), (\<lambda>d. None), 0) \<and>
   cleanup_session Removed (\<lambda>d. None) 7 = (Inr (), (\<lambda>d. None), 0)"
proof -
  have a: "fst (snd (cleanup_session Removed ((\<lambda>d. None)(7 \<mapsto> {StoryImage})) 7)) = (\<lambda>d. None)"
    by (simp add: cleanup_session_def cleanup_session_try_def)
  have b: "cleanup_session Removed ((\<lambda>d. None)(7 \<mapsto> {StoryImage})) 7 = (Inr (), (\<lambda>d. None), 0)"
    by (simp add: cleanup_session_def cleanup_session_try_def)
  show ?thesis
    using cleanup_session_idempotent [of Removed "(\<lambda>d. None)(7 \<mapsto> {StoryImage})" 7 Removed] b
    unfolding a by simp
qed

section \<open>Composition\<close>

lemma never_raises:
  "\<exists>r. fst (create_story_video env files image_ok audio_path story_text enable_captions) = Inr r"
  by (auto simp: create_story_video_def split: prod.splits sum.splits)

lemma image_fail:
  assumes "\<not> image_ok" "StoryImage \<notin> files"
  shows "create_story_video env files image_ok audio_path story_text enable_captions = (Inr None, files, [])"
  using assms
  by (auto simp: create_story_video_def create_story_video_try_def path_exists_def split: option.splits)

text \<open>
  C7. When the image payload cannot be decoded (and the directory holds no image), the
  composition returns \<open>None\<close> without having started the inspection tool or the encoder; the
  request handler, on a fresh session directory, then answers with status 500 after calling
  \<open>cleanup_session\<close>, and the directory is gone when \<open>rmtree\<close> succeeds.
\<close>

theorem undecodable_image_fails_early:
  assumes "story_text \<noteq> []" and "fs session_dir = None"
  shows "(StoryImage \<notin> files \<longrightarrow>
            create_story_video env files False audio_path story_text enable_captions
              = (Inr None, files, [])) \<and>
         (\<exists>fs'. generate_video env narration rmtree fs session_dir False story_text enable_captions
              = (HTTPException 500, fs', [CleanupSession]) \<and>
            (rmtree = Removed \<longrightarrow> fs' session_dir = None))"
proof -
  have cl: "\<exists>fs'. respond_after_cleanup (HTTPException 500) rmtree f session_dir []
      = (HTTPException 500, fs', [CleanupSession]) \<and> (rmtree = Removed \<longrightarrow> fs' session_dir = None)" for f
    by (auto simp: respond_after_cleanup_def cleanup_session_def cleanup_session_try_def
        split: option.splits rmtree_outcome.splits)
  have files: "create_session_dir fs session_dir session_dir = Some {}"
    using assms(2) by (simp add: create_session_dir_def)
  show ?thesis
  proof (cases narration)
    case (Inl e)
    then show ?thesis
      using assms(1) cl by (simp add: generate_video_def Let_def image_fail)
  next
    case (Inr narrated)
    then show ?thesis
      using assms(1) cl by (simp add: generate_video_def Let_def image_fail files)
  qed
qed

theorem undecodable_image_fails_early_witness:
  "[97] \<noteq> ([] :: pystr) \<and> (\<lambda>d. None :: asset set option) (1 :: nat) = None \<and>
   (\<exists>fs'. generate_video
       \<lparr>ffprobe = Raises OSError, audio_size = None, captions_written = True,
        ffmpeg = (\<lambda>c. Exit 0 True), exists_fault = (\<lambda>p. None)\<rparr>
       (Inr True) Removed (\<lambda>d. None) 1 False [97] True
      = (HTTPException 500, fs', [CleanupSession]) \<and> fs' 1 = None)"
  using undecodable_image_fails_early [of "[97]" "\<lambda>d. None" 1 "{}"
      "\<lparr>ffprobe = Raises OSError, audio_size = None, captions_written = True,
        ffmpeg = (\<lambda>c. Exit 0 True), exists_fault = (\<lambda>p. None)\<rparr>" None True "Inr True" Removed]
  by simp

lemma encoder_all_fail:
  assumes "\<forall>c. \<not> succeeded (run c)"
  shows "fst (create_video_ffmpeg run files audio_path subtitle_path) = False"
proof -
  have n: "fst (create_video_ffmpeg run f audio_path None) = False" for f
    using assms by (simp add: attempts_no_captions Let_def)
  show ?thesis
  proof (cases subtitle_path)
    case None
    then show ?thesis using n by simp
  next
    case (Some p)
    then show ?thesis
      using assms [rule_format, of "Ffmpeg (audio_path \<noteq> None \<and> Narration \<in> files)
          (Some (filter_chain (CaptionsSrt \<in> files)))"]
        n [of "output_after (run (Ffmpeg (audio_path \<noteq> None \<and> Narration \<in> files)
          (Some (filter_chain (CaptionsSrt \<in> files))))) files"]
      by (auto simp: create_video_ffmpeg.simps [of run files audio_path "Some p"] Let_def
          succeeded_def split: run_result.splits prod.splits)
  qed
qed

lemma fst_create_story_video:
  "fst (create_story_video env files image_ok audio_path story_text enable_captions) =
     (case fst (create_story_video_try env files image_ok audio_path story_text enable_captions) of
        Inl e \<Rightarrow> Inr None | Inr video_path \<Rightarrow> Inr video_path)"
  by (simp add: create_story_video_def split: prod.splits sum.splits)

lemma encoder_fail_None:
  assumes "\<forall>c. \<not> succeeded (ffmpeg env c)"
  shows "fst (create_story_video env files image_ok audio_path story_text enable_captions) = Inr None"
proof -
  have n: "fst (create_video_ffmpeg (ffmpeg env) f audio_path s) = False" for f s
    using assms by (rule encoder_all_fail)
  show ?thesis
    unfolding fst_create_story_video
    by (simp add: create_story_video_try_def Let_def case_prod_beta n split: sum.splits)
qed

lemma exists_fault_None:
  assumes "exists_fault env StoryImage = Some e"
  shows "fst (create_story_video env files image_ok audio_path story_text enable_captions) = Inr None"
  using assms
  by (simp add: create_story_video_def create_story_video_try_def Let_def path_exists_def)

text \<open>
  C10. \<open>create_story_video\<close> never propagates an exception: it always returns, and its
  result is \<open>None\<close> when the image payload cannot be decoded, when querying the image
  path raises, and when every encoder attempt fails.
\<close>

theorem create_story_video_never_raises:
  "(\<exists>r. fst (create_story_video env files image_ok audio_path story_text enable_captions) = Inr r) \<and>
   (\<not> image_ok \<and> StoryImage \<notin> files \<longrightarrow>
      fst (create_story_video env files image_ok audio_path story_text enable_captions) = Inr None) \<and>
   (exists_fault env StoryImage \<noteq> None \<longrightarrow>
      fst (create_story_video env files image_ok audio_path story_text enable_captions) = Inr None) \<and>
   ((\<forall>c. \<not> succeeded (ffmpeg env c)) \<longrightarrow>
      fst (create_story_video env files image_ok audio_path story_text enable_captions) = Inr None)"
proof -
  let ?r = "fst (create_story_video env files image_ok audio_path story_text enable_captions)"
  have "\<exists>r. ?r = Inr r"
    by (rule never_raises)
  moreover have "?r = Inr None" if "\<not> image_ok \<and> StoryImage \<notin> files"
    using that image_fail [of image_ok files env audio_path story_text enable_captions] by simp
  moreover have "?r = Inr None" if "exists_fault env StoryImage \<noteq> None"
  proof -
    from that obtain e where "exists_fault env StoryImage = Some e" by auto
    then show ?thesis by (rule exists_fault_None)
  qed
  moreover have "?r = Inr None" if "\<forall>c. \<not> succeeded (ffmpeg env c)"
    using that by (rule encoder_fail_None)
  ultimately show ?thesis by blast
qed

theorem create_story_video_never_raises_witness:
  "fst (create_story_video
       \<lparr>ffprobe = Raises OSError, audio_size = Some 480000, captions_written = True,
        ffmpeg = (\<lambda>c. Exit 1 False), exists_fault = (\<lambda>p. None)\<rparr>
       {Narration} True (Some Narration) [97] True) = Inr None \<and>
   fst (create_story_video
       \<lparr>ffprobe = Raises OSError, audio_size = Some 480000, captions_written = True,
        ffmpeg = (\<lambda>c. Exit 0 True), exists_fault = (\<lambda>p. Some OSError)\<rparr>
       {Narration} True (Some Narration) [97] True) = Inr None \<and>
   fst (create_story_video
       \<lparr>ffprobe = Raises OSError, audio_size = Some 480000, captions_written = True,
        ffmpeg = (\<lambda>c. Exit 0 True), exists_fault = (\<lambda>p. None)\<rparr>
       {Narration} False (Some Narration) [97] True) = Inr None"
  using create_story_video_never_raises [of
       "\<lparr>ffprobe = Raises OSError, audio_size = Some 480000, captions_written = True,
        ffmpeg = (\<lambda>c. Exit 1 False), exists_fault = (\<lambda>p. None)\<rparr>"
       "{Narration}" True "Some Narration" "[97]" True]
    create_story_video_never_raises [of
       "\<lparr>ffprobe = Raises OSError, audio_size = Some 480000, captions_written = True,
        ffmpeg = (\<lambda>c. Exit 0 True), exists_fault = (\<lambda>p. Some OSError)\<rparr>"
       "{Narration}" True "Some Narration" "[97]" True]
    create_story_video_never_raises [of
       "\<lparr>ffprobe = Raises OSError, audio_size = Some 480000, captions_written = True,
        ffmpeg = (\<lambda>c. Exit 0 True), exists_fault = (\<lambda>p. None)\<rparr>"
       "{Narration}" False "Some Narration" "[97]" True]
  by (simp add: succeeded_def)

end
